theory Spec2Isabelle
  imports Main "HOL-Library.Multiset"
begin

section \<open>Browser environment shared by the scripts\<close>

text \<open>
  A promise is pending until it settles, and it settles at most once. The scripts never
  attach a rejection handler, so a rejection only ends up in the page's list of uncaught
  errors, next to the TypeError of a property access on null.
\<close>

datatype 'a promise = Pending | Fulfilled 'a | Rejected

datatype error = TypeError | NetworkError

text \<open>
  A template literal converts the interpolated value to a string. The value read from local
  storage is a string or null, and null is printed as the four letters "null".
\<close>

definition template :: "string option \<Rightarrow> string" where
  "template v = (case v of None \<Rightarrow> ''null'' | Some s \<Rightarrow> s)"

section \<open>script.js: theme controller and navbar loader\<close>

text \<open>
  The input element found below the element with id theme-switch: its checked state and
  whether the change listener of script.js is attached to it.
\<close>

record toggle_el =
  checked :: bool
  change_listener :: bool

text \<open>
  What a lookup of the element with id theme-switch and of its first input descendant finds
  in the document. It depends on the host page and on the markup injected into the navbar
  placeholder, so it is a parameter of the model: a function from the injected markup.
\<close>

datatype lookup = NoSwitch | NoInput | HasInput

text \<open>
  The part of the browser state that script.js and the stand-alone navbar loader touch:
  local storage, the inline style of the document root (custom properties only), the inner
  markup of the element with id navbar (None when the host page has no such element), the
  toggle once it has been located, the three promises of the loader, the ids passed to
  getElementById so far, and the errors nobody caught. Local storage and the inline style are
  finite maps from strings to strings; storage quota and the CSS parser are not modelled.
\<close>

record page =
  localStorage :: "string \<rightharpoonup> string"
  root_style :: "string \<rightharpoonup> string"
  navbar :: "string option"
  themeToggle :: "toggle_el option"
  fetch_navbar :: "unit promise"
  response_text :: "string promise option"
  getNavbar :: "string promise"
  lookups :: "string list"
  uncaught :: "error list"

definition getItem :: "string \<Rightarrow> page \<Rightarrow> string option" where
  "getItem k s = localStorage s k"

definition setItem :: "string \<Rightarrow> string \<Rightarrow> page \<Rightarrow> page" where
  "setItem k v s = s\<lparr>localStorage := (localStorage s)(k \<mapsto> v)\<rparr>"

definition setProperty :: "string \<Rightarrow> string \<Rightarrow> page \<Rightarrow> page" where
  "setProperty p v s = s\<lparr>root_style := (root_style s)(p \<mapsto> v)\<rparr>"

definition throw :: "error \<Rightarrow> page \<Rightarrow> page" where
  "throw e s = s\<lparr>uncaught := uncaught s @ [e]\<rparr>"

definition getElementById :: "string \<Rightarrow> page \<Rightarrow> page" where
  "getElementById i s = s\<lparr>lookups := lookups s @ [i]\<rparr>"

text \<open>script.js, lines 1 to 10.\<close>

definition updateTheme :: "string option \<Rightarrow> page \<Rightarrow> page" where
  "updateTheme theme s =
    (let s = setProperty ''--crust'' (''var(--'' @ template theme @ ''-crust)'') s;
         s = setProperty ''--mantle'' (''var(--'' @ template theme @ ''-mantle)'') s;
         s = setProperty ''--base'' (''var(--'' @ template theme @ ''-base)'') s;
         s = setProperty ''--surface0'' (''var(--'' @ template theme @ ''-surface0)'') s;
         s = setProperty ''--surface1'' (''var(--'' @ template theme @ ''-surface1)'') s;
         s = setProperty ''--surface2'' (''var(--'' @ template theme @ ''-surface2)'') s;
         s = setProperty ''--text'' (''var(--'' @ template theme @ ''-text)'') s
     in s)"

text \<open>script.js, lines 13 to 17: the load-time initialisation.\<close>

definition theme_init :: "page \<Rightarrow> page" where
  "theme_init s =
    (let theme = getItem ''theme'' s;
         s = (if theme = None then setItem ''theme'' ''dark'' s else s)
     in updateTheme (getItem ''theme'' s) s)"

text \<open>
  script.js, lines 19 to 27 (and lines 2 to 10 of the stand-alone loader): the executor
  starts the fetch of navbar.html; the wrapping promise is pending and only the second
  then-callback of the chain ever calls resolve.
\<close>

definition getNavbar_new :: "page \<Rightarrow> page" where
  "getNavbar_new s = s\<lparr>fetch_navbar := Pending, response_text := None, getNavbar := Pending\<rparr>"

text \<open>script.js, lines 38 to 41: the change listener; the argument is e.target.checked.\<close>

definition themeToggle_change :: "bool \<Rightarrow> page \<Rightarrow> page" where
  "themeToggle_change target_checked s =
    (let s = setItem ''theme'' (if target_checked then ''light'' else ''dark'') s
     in updateTheme (getItem ''theme'' s) s)"

text \<open>
  script.js, lines 29 to 42: the callback chained on getNavbar. A lookup that returns null
  makes the next property access throw, and the rest of the callback does not run.
\<close>

definition getNavbar_then :: "(string \<Rightarrow> lookup) \<Rightarrow> string \<Rightarrow> page \<Rightarrow> page" where
  "getNavbar_then doc markup s =
    (let s = getElementById ''navbar'' s in
     case navbar s of
       None \<Rightarrow> throw TypeError s
     | Some _ \<Rightarrow>
        (let s = s\<lparr>navbar := Some markup\<rparr>;
             theme = getItem ''theme'' s;
             s = getElementById ''theme-switch'' s
         in case doc markup of
              NoSwitch \<Rightarrow> throw TypeError s
            | NoInput \<Rightarrow> throw TypeError s
            | HasInput \<Rightarrow>
                s\<lparr>themeToggle :=
                    Some \<lparr>checked = (theme = Some ''light''), change_listener = True\<rparr>\<rparr>))"

text \<open>The stand-alone navbar loader, lines 12 to 14: the callback only injects the markup.\<close>

definition getNavbar_then_plain :: "string \<Rightarrow> page \<Rightarrow> page" where
  "getNavbar_then_plain markup s =
    (let s = getElementById ''navbar'' s in
     case navbar s of
       None \<Rightarrow> throw TypeError s
     | Some _ \<Rightarrow> s\<lparr>navbar := Some markup\<rparr>)"

text \<open>
  What can happen to the page after the script has run: the fetch of navbar.html fulfils or
  rejects, the text of the response arrives or its read fails, and the user changes the
  toggle (the event carries the new checked state). An event that does not fit the state of
  its promise cannot occur in a browser and is ignored.
\<close>

datatype event =
  FetchFulfilled | FetchRejected | TextFulfilled string | TextRejected | Change bool

fun navbar_step :: "(string \<Rightarrow> page \<Rightarrow> page) \<Rightarrow> page \<Rightarrow> event \<Rightarrow> page" where
  "navbar_step cb s FetchFulfilled =
    (if fetch_navbar s = Pending
     then s\<lparr>fetch_navbar := Fulfilled (), response_text := Some Pending\<rparr>
     else s)"
| "navbar_step cb s FetchRejected =
    (if fetch_navbar s = Pending
     then throw NetworkError (s\<lparr>fetch_navbar := Rejected\<rparr>)
     else s)"
| "navbar_step cb s (TextFulfilled markup) =
    (if response_text s = Some Pending
     then cb markup (s\<lparr>response_text := Some (Fulfilled markup), getNavbar := Fulfilled markup\<rparr>)
     else s)"
| "navbar_step cb s TextRejected =
    (if response_text s = Some Pending
     then throw NetworkError (s\<lparr>response_text := Some Rejected\<rparr>)
     else s)"
| "navbar_step cb s (Change b) =
    (case themeToggle s of
       None \<Rightarrow> s
     | Some t \<Rightarrow>
        (let s = s\<lparr>themeToggle := Some (t\<lparr>checked := b\<rparr>)\<rparr>
         in if change_listener t then themeToggle_change b s else s))"

text \<open>The page before any script has run, and the synchronous part of each script.\<close>

definition fresh_page ::
  "(string \<rightharpoonup> string) \<Rightarrow> (string \<rightharpoonup> string) \<Rightarrow> string option \<Rightarrow> page" where
  "fresh_page store style placeholder =
    \<lparr>localStorage = store, root_style = style, navbar = placeholder, themeToggle = None,
     fetch_navbar = Pending, response_text = None, getNavbar = Pending, lookups = [],
     uncaught = []\<rparr>"

definition script_js :: "page \<Rightarrow> page" where
  "script_js s = getNavbar_new (theme_init s)"

definition navbar_js :: "page \<Rightarrow> page" where
  "navbar_js s = getNavbar_new s"

text \<open>
  The navbar loader exists twice: inside script.js, where the chained callback also wires the
  toggle, and as a stand-alone file, where it only injects the markup.
\<close>

datatype loader = Script_js "string \<Rightarrow> lookup" | Navbar_only

fun callback :: "loader \<Rightarrow> string \<Rightarrow> page \<Rightarrow> page" where
  "callback (Script_js doc) = getNavbar_then doc"
| "callback Navbar_only = getNavbar_then_plain"

fun load :: "loader \<Rightarrow> page \<Rightarrow> page" where
  "load (Script_js doc) s = script_js s"
| "load Navbar_only s = navbar_js s"

definition run :: "loader \<Rightarrow> page \<Rightarrow> event list \<Rightarrow> page" where
  "run v s evs = foldl (navbar_step (callback v)) (load v s) evs"

text \<open>The UI layers whose custom properties the theme overrides.\<close>

definition layers :: "string list" where
  "layers = [''crust'', ''mantle'', ''base'', ''surface0'', ''surface1'', ''surface2'', ''text'']"

text \<open>The root references the variants of theme t: every layer property is var(--t-layer).\<close>

definition references :: "string \<Rightarrow> page \<Rightarrow> bool" where
  "references t s \<longleftrightarrow>
    (\<forall>l \<in> set layers. root_style s (''--'' @ l) = Some (''var(--'' @ t @ ''-'' @ l @ '')''))"

definition theme_applied :: "page \<Rightarrow> bool" where
  "theme_applied s \<longleftrightarrow>
    (case localStorage s ''theme'' of None \<Rightarrow> False | Some t \<Rightarrow> references t s)"

text \<open>An example page: empty storage, one unrelated inline property, an empty placeholder.\<close>

definition example_page :: page where
  "example_page = fresh_page Map.empty [''--accent'' \<mapsto> ''red''] (Some [])"

definition solarized_page :: page where
  "solarized_page = fresh_page [''theme'' \<mapsto> ''solarized''] Map.empty (Some [])"

definition example_doc :: "string \<Rightarrow> lookup" where
  "example_doc markup = (if markup = [] then NoSwitch else HasInput)"

text \<open>
  The shape of every state the loader can reach from a page s0 on which the toggle has not
  been located: the text of the response is only read once the fetch has fulfilled, and the
  wrapping promise is fulfilled exactly when that text has arrived; until then the
  placeholder, the lookups and the toggle are as on s0.
\<close>

definition loader_inv :: "page \<Rightarrow> page \<Rightarrow> bool" where
  "loader_inv s0 s \<longleftrightarrow>
    (fetch_navbar s \<noteq> Fulfilled () \<longrightarrow> response_text s = None) \<and>
    (case response_text s of
       Some (Fulfilled m) \<Rightarrow> getNavbar s = Fulfilled m \<and> (navbar s0 \<noteq> None \<longrightarrow> navbar s = Some m)
     | _ \<Rightarrow> getNavbar s = Pending \<and> navbar s = navbar s0 \<and> lookups s = lookups s0
           \<and> themeToggle s = None)"

text \<open>The fetch of the fragment, or the read of its text, has failed.\<close>

definition failed :: "page \<Rightarrow> bool" where
  "failed s \<longleftrightarrow> fetch_navbar s = Rejected \<or> response_text s = Some Rejected"

section \<open>sites.js: the site lister\<close>

text \<open>
  DOM elements as values: a tag, the properties assigned so far in the order of their first
  assignment, and the children. The src of the icon is the object URL created for the blob,
  which is kept symbolic.
\<close>

type_synonym blob = string

datatype prop_value = Str string | ObjectURL blob

datatype element = Element string "(string \<times> prop_value) list" "element list"

definition createElement :: "string \<Rightarrow> element" where
  "createElement t = Element t [] []"

fun put :: "string \<Rightarrow> prop_value \<Rightarrow> (string \<times> prop_value) list \<Rightarrow> (string \<times> prop_value) list" where
  "put k v [] = [(k, v)]"
| "put k v ((k', v') # ps) = (if k' = k then (k, v) # ps else (k', v') # put k v ps)"

fun assign :: "string \<Rightarrow> prop_value \<Rightarrow> element \<Rightarrow> element" where
  "assign k v (Element t ps cs) = Element t (put k v ps) cs"

fun appendChild :: "element \<Rightarrow> element \<Rightarrow> element" where
  "appendChild (Element t ps cs) child = Element t ps (cs @ [child])"

text \<open>A record of the API response; the response as a whole is the list of its records.\<close>

record site_data =
  title :: string
  description :: string

record site =
  name :: string
  data :: site_data

text \<open>
  One invocation of the asynchronous forEach callback: the elements it has created before its
  first await, the record it works on, and how far it has got.
\<close>

datatype stage = AwaitIcon | AwaitBlob | Appended | Failed

record task =
  link :: element
  div_el :: element
  site_of :: site
  stage :: stage

text \<open>sites.js, lines 9 to 15: the callback up to the fetch of the icon.\<close>

definition forEach_begin :: "site \<Rightarrow> task" where
  "forEach_begin site =
    (let link = createElement ''a'';
         link = assign ''href'' (Str (''/sites/'' @ name site)) link;
         link = assign ''style'' (Str ''display: block'') link;
         link = assign ''target'' (Str ''_blank'') link;
         dv = createElement ''div''
     in \<lparr>link = link, div_el = dv, site_of = site, stage = AwaitIcon\<rparr>)"

text \<open>sites.js, lines 18 to 35: the callback once the blob of the icon has arrived.\<close>

definition forEach_finish :: "blob \<Rightarrow> task \<Rightarrow> element" where
  "forEach_finish icon t =
    (let image = createElement ''img'';
         image = assign ''src'' (ObjectURL icon) image;
         image = assign ''className'' (Str ''site-icon'') image;
         name_h3 = createElement ''h3'';
         name_h3 = assign ''innerText'' (Str (title (data (site_of t)))) name_h3;
         name_h3 = assign ''className'' (Str ''site-name'') name_h3;
         description_p = createElement ''p'';
         description_p = assign ''innerText'' (Str (description (data (site_of t)))) description_p;
         description_p = assign ''className'' (Str ''site-description'') description_p;
         dv = appendChild (div_el t) image;
         dv = appendChild dv name_h3;
         dv = appendChild dv description_p;
         link = appendChild (link t) dv;
         link = assign ''className'' (Str ''site'') link
     in link)"

text \<open>
  The state of the page of sites.js: how far the request for the list has got, the children of
  the element with id site-list (None when the host page has no such element), the callback
  invocations, and the errors nobody caught.
\<close>

datatype api_stage = AwaitResponse | AwaitJson | Listing | ApiFailed

record listing =
  api :: api_stage
  site_list :: "element list option"
  tasks :: "task list"
  unhandled :: "error list"

text \<open>sites.js, lines 1 and 2: the call runs up to the first await.\<close>

definition getSites :: "element list option \<Rightarrow> listing" where
  "getSites container =
    \<lparr>api = AwaitResponse, site_list = container, tasks = [], unhandled = []\<rparr>"

text \<open>
  sites.js, lines 5 to 37, once the JSON has arrived: the container is cleared and forEach
  starts one callback per record, in the order of the list; each runs up to its fetch.
\<close>

definition getSites_resume :: "site list \<Rightarrow> listing \<Rightarrow> listing" where
  "getSites_resume sites s =
    (case site_list s of
       None \<Rightarrow> s\<lparr>api := ApiFailed, unhandled := unhandled s @ [TypeError]\<rparr>
     | Some _ \<Rightarrow> s\<lparr>api := Listing, site_list := Some [], tasks := map forEach_begin sites\<rparr>)"

text \<open>
  The network events of the page. The icon events carry the index of the record in the list.
  An event that does not fit the stage of its request cannot occur and is ignored.
\<close>

datatype sites_event =
  SitesResponse | SitesJson "site list" | SitesRejected
  | IconResponse nat | IconBlob nat blob | IconRejected nat

fun sites_step :: "listing \<Rightarrow> sites_event \<Rightarrow> listing" where
  "sites_step s SitesResponse = (if api s = AwaitResponse then s\<lparr>api := AwaitJson\<rparr> else s)"
| "sites_step s (SitesJson sites) = (if api s = AwaitJson then getSites_resume sites s else s)"
| "sites_step s SitesRejected =
    (if api s = AwaitResponse \<or> api s = AwaitJson
     then s\<lparr>api := ApiFailed, unhandled := unhandled s @ [NetworkError]\<rparr>
     else s)"
| "sites_step s (IconResponse i) =
    (if i < length (tasks s) \<and> stage (tasks s ! i) = AwaitIcon
     then s\<lparr>tasks := (tasks s)[i := (tasks s ! i)\<lparr>stage := AwaitBlob\<rparr>]\<rparr>
     else s)"
| "sites_step s (IconBlob i icon) =
    (if i < length (tasks s) \<and> stage (tasks s ! i) = AwaitBlob
     then s\<lparr>site_list := map_option (\<lambda>cs. cs @ [forEach_finish icon (tasks s ! i)]) (site_list s),
            tasks := (tasks s)[i := (tasks s ! i)\<lparr>stage := Appended\<rparr>]\<rparr>
     else s)"
| "sites_step s (IconRejected i) =
    (if i < length (tasks s) \<and> (stage (tasks s ! i) = AwaitIcon \<or> stage (tasks s ! i) = AwaitBlob)
     then s\<lparr>tasks := (tasks s)[i := (tasks s ! i)\<lparr>stage := Failed\<rparr>],
            unhandled := unhandled s @ [NetworkError]\<rparr>
     else s)"

text \<open>
  A run of the lister in which the list of records arrives: the events after the JSON are
  arbitrary.
\<close>

definition list_sites :: "element list option \<Rightarrow> site list \<Rightarrow> sites_event list \<Rightarrow> listing" where
  "list_sites container sites evs =
    foldl sites_step (getSites container) (SitesResponse # SitesJson sites # evs)"

text \<open>The card of a record, written out: a link around a div with icon, title and description.\<close>

definition card :: "site \<Rightarrow> blob \<Rightarrow> element" where
  "card site icon =
    Element ''a''
      [(''href'', Str (''/sites/'' @ name site)), (''style'', Str ''display: block''),
       (''target'', Str ''_blank''), (''className'', Str ''site'')]
      [Element ''div'' []
        [Element ''img'' [(''src'', ObjectURL icon), (''className'', Str ''site-icon'')] [],
         Element ''h3''
           [(''innerText'', Str (title (data site))), (''className'', Str ''site-name'')] [],
         Element ''p''
           [(''innerText'', Str (description (data site))),
            (''className'', Str ''site-description'')] []]]"

definition site_a :: site where
  "site_a = \<lparr>name = ''alpha'', data = \<lparr>title = ''Alpha'', description = ''first''\<rparr>\<rparr>"

definition site_b :: site where
  "site_b = \<lparr>name = ''beta'', data = \<lparr>title = ''Beta'', description = ''second''\<rparr>\<rparr>"

text \<open>
  The request for the icon of record i fulfils along a trace: it is never rejected, and after
  its response a blob for it arrives.
\<close>

definition is_blob :: "nat \<Rightarrow> sites_event \<Rightarrow> bool" where
  "is_blob i e = (case e of IconBlob j _ \<Rightarrow> j = i | _ \<Rightarrow> False)"

definition icon_fulfils :: "nat \<Rightarrow> sites_event list \<Rightarrow> bool" where
  "icon_fulfils i evs \<longleftrightarrow>
    IconRejected i \<notin> set evs
    \<and> list_ex (is_blob i) (dropWhile (\<lambda>e. e \<noteq> IconResponse i) evs)"

text \<open>The callback invocations that have appended their card.\<close>

definition appended :: "task list \<Rightarrow> nat set" where
  "appended ts = {i. i < length ts \<and> stage (ts ! i) = Appended}"

text \<open>
  The shape of every state of the lister once the list has arrived, after the events evs: the
  invocations are those started for the records, in the order of the list; a request whose
  blob is awaited has had its response; and the container holds, without repetition, the cards
  of exactly the invocations that have appended theirs, each made from a blob that arrived.
\<close>

definition sites_inv :: "site list \<Rightarrow> sites_event list \<Rightarrow> listing \<Rightarrow> bool" where
  "sites_inv sites evs s \<longleftrightarrow>
    api s = Listing
    \<and> map (\<lambda>t. t\<lparr>stage := AwaitIcon\<rparr>) (tasks s) = map forEach_begin sites
    \<and> (\<forall>i < length (tasks s). stage (tasks s ! i) = AwaitBlob \<longrightarrow> IconResponse i \<in> set evs)
    \<and> (\<exists>ds. site_list s = Some (map (\<lambda>(i, icon). card (sites ! i) icon) ds)
          \<and> distinct (map fst ds) \<and> set (map fst ds) = appended (tasks s)
          \<and> (\<forall>(i, icon) \<in> set ds. IconResponse i \<in> set evs \<and> IconBlob i icon \<in> set evs))"

section \<open>Applying a theme\<close>

lemma updateTheme_style:
  "root_style (updateTheme theme s) =
    (root_style s)
      (''--crust'' \<mapsto> ''var(--'' @ template theme @ ''-crust)'',
       ''--mantle'' \<mapsto> ''var(--'' @ template theme @ ''-mantle)'',
       ''--base'' \<mapsto> ''var(--'' @ template theme @ ''-base)'',
       ''--surface0'' \<mapsto> ''var(--'' @ template theme @ ''-surface0)'',
       ''--surface1'' \<mapsto> ''var(--'' @ template theme @ ''-surface1)'',
       ''--surface2'' \<mapsto> ''var(--'' @ template theme @ ''-surface2)'',
       ''--text'' \<mapsto> ''var(--'' @ template theme @ ''-text)'')"
  by (simp add: updateTheme_def setProperty_def)

lemma updateTheme_frame:
  "updateTheme theme s = s\<lparr>root_style := root_style (updateTheme theme s)\<rparr>"
  by (simp add: updateTheme_def setProperty_def)

lemma updateTheme_references: "references (template theme) (updateTheme theme s)"
  by (simp add: references_def layers_def updateTheme_style)

lemma updateTheme_storage [simp]: "localStorage (updateTheme theme s) = localStorage s"
  by (simp add: updateTheme_def setProperty_def Let_def)

lemma getNavbar_new_fields [simp]:
  "localStorage (getNavbar_new s) = localStorage s"
  "root_style (getNavbar_new s) = root_style s"
  "navbar (getNavbar_new s) = navbar s"
  "themeToggle (getNavbar_new s) = themeToggle s"
  "lookups (getNavbar_new s) = lookups s"
  by (simp_all add: getNavbar_new_def)

lemma references_getNavbar_new [simp]: "references t (getNavbar_new s) = references t s"
  by (simp add: references_def)

text \<open>
  C6: for every theme string t, applying the theme sets each of the seven layer properties
  (crust, mantle, base, surface0, surface1, surface2, text) to a reference to the variant
  --t-layer, and it changes nothing else: every other property of the root and every other
  part of the page stay as they were.
\<close>

theorem updateTheme_rewrites_layers:
  "(\<forall>l \<in> set layers.
      root_style (updateTheme (Some t) s) (''--'' @ l) = Some (''var(--'' @ t @ ''-'' @ l @ '')''))
   \<and> (\<forall>p. p \<notin> (\<lambda>l. ''--'' @ l) ` set layers \<longrightarrow>
          root_style (updateTheme (Some t) s) p = root_style s p)
   \<and> updateTheme (Some t) s = s\<lparr>root_style := root_style (updateTheme (Some t) s)\<rparr>"
proof (intro conjI)
  show "\<forall>l \<in> set layers.
      root_style (updateTheme (Some t) s) (''--'' @ l) = Some (''var(--'' @ t @ ''-'' @ l @ '')'')"
    using updateTheme_references [of "Some t" s] by (simp add: references_def template_def)
  show "\<forall>p. p \<notin> (\<lambda>l. ''--'' @ l) ` set layers \<longrightarrow>
          root_style (updateTheme (Some t) s) p = root_style s p"
    by (simp add: updateTheme_style layers_def)
  show "updateTheme (Some t) s = s\<lparr>root_style := root_style (updateTheme (Some t) s)\<rparr>"
    by (rule updateTheme_frame)
qed

theorem updateTheme_rewrites_layers_witness:
  "root_style (updateTheme (Some ''light'') example_page) ''--base'' = Some ''var(--light-base)''
   \<and> root_style (updateTheme (Some ''light'') example_page) ''--accent'' = Some ''red''"
  using updateTheme_rewrites_layers [of "''light''" example_page]
  by (simp add: layers_def example_page_def fresh_page_def)

section \<open>The load sequence\<close>

lemma theme_init_storage:
  "localStorage (theme_init s) ''theme'' =
    Some (case localStorage s ''theme'' of None \<Rightarrow> ''dark'' | Some v \<Rightarrow> v)"
  by (simp add: theme_init_def getItem_def setItem_def split: option.splits)

lemma theme_init_storage_other:
  "k \<noteq> ''theme'' \<Longrightarrow> localStorage (theme_init s) k = localStorage s k"
  by (simp add: theme_init_def getItem_def setItem_def)

lemma theme_init_references:
  "references (case localStorage s ''theme'' of None \<Rightarrow> ''dark'' | Some v \<Rightarrow> v) (theme_init s)"
  using updateTheme_references
    [of "Some (case localStorage s ''theme'' of None \<Rightarrow> ''dark'' | Some v \<Rightarrow> v)"]
  by (auto simp add: theme_init_def getItem_def setItem_def template_def Let_def
      split: option.splits)

text \<open>
  C2: if local storage has no value under the key theme when the page loads, then after the
  load sequence of script.js storage holds "dark" under that key and every layer property of
  the root references its --dark- variant.
\<close>

theorem load_defaults_to_dark:
  "localStorage s ''theme'' = None \<Longrightarrow>
    localStorage (script_js s) ''theme'' = Some ''dark'' \<and> references ''dark'' (script_js s)"
  using theme_init_references [of s] by (simp add: script_js_def theme_init_storage)

theorem load_defaults_to_dark_witness:
  "localStorage example_page ''theme'' = None
   \<and> localStorage (script_js example_page) ''theme'' = Some ''dark''
   \<and> root_style (script_js example_page) ''--crust'' = Some ''var(--dark-crust)''
   \<and> root_style (script_js example_page) ''--text'' = Some ''var(--dark-text)''"
proof -
  have h: "localStorage example_page ''theme'' = None"
    by (simp add: example_page_def fresh_page_def)
  show ?thesis using h load_defaults_to_dark [OF h]
    by (simp add: references_def layers_def)
qed

text \<open>
  C10: if local storage already holds a value v under the key theme at load, whatever string
  v is, the load sequence leaves storage as it was and applies v without validation: every
  layer property of the root comes to reference its --v- variant.
\<close>

theorem load_keeps_stored_value:
  "localStorage s ''theme'' = Some v \<Longrightarrow>
    localStorage (script_js s) = localStorage s \<and> references v (script_js s)"
proof
  assume v: "localStorage s ''theme'' = Some v"
  show "localStorage (script_js s) = localStorage s"
    using v by (simp add: script_js_def theme_init_def getItem_def)
  show "references v (script_js s)"
    using v theme_init_references [of s] by (simp add: script_js_def)
qed

theorem load_keeps_stored_value_witness:
  "localStorage solarized_page ''theme'' = Some ''solarized''
   \<and> localStorage (script_js solarized_page) ''theme'' = Some ''solarized''
   \<and> root_style (script_js solarized_page) ''--surface0'' = Some ''var(--solarized-surface0)''"
proof -
  have h: "localStorage solarized_page ''theme'' = Some ''solarized''"
    by (simp add: solarized_page_def fresh_page_def)
  show ?thesis using h load_keeps_stored_value [OF h]
    by (simp add: references_def layers_def)
qed

section \<open>The change listener\<close>

lemma themeToggle_change_storage:
  "localStorage (themeToggle_change b s) =
    (localStorage s)(''theme'' \<mapsto> (if b then ''light'' else ''dark''))"
  by (simp add: themeToggle_change_def getItem_def setItem_def)

lemma themeToggle_change_references:
  "references (if b then ''light'' else ''dark'') (themeToggle_change b s)"
  using updateTheme_references [of "Some (if b then ''light'' else ''dark'')"]
  by (simp add: themeToggle_change_def getItem_def setItem_def template_def)

lemma themeToggle_change_fields [simp]:
  "fetch_navbar (themeToggle_change b s) = fetch_navbar s"
  "response_text (themeToggle_change b s) = response_text s"
  "getNavbar (themeToggle_change b s) = getNavbar s"
  "navbar (themeToggle_change b s) = navbar s"
  "lookups (themeToggle_change b s) = lookups s"
  "themeToggle (themeToggle_change b s) = themeToggle s"
  by (simp_all add: themeToggle_change_def updateTheme_def setProperty_def setItem_def Let_def)

text \<open>
  C3: for every change event on the toggle, in whatever state the page is: when the checkbox
  has become checked, the listener stores "light" under the key theme and the layer
  properties reference the --light- variants; when it has become unchecked (also right after
  having been checked) it stores "dark" and the properties reference the --dark- variants.
  The same holds for the page after a change event on a toggle that carries the listener.
\<close>

theorem change_listener_persists_and_applies:
  "localStorage (themeToggle_change True s) ''theme'' = Some ''light''
   \<and> references ''light'' (themeToggle_change True s)
   \<and> localStorage (themeToggle_change False (themeToggle_change True s)) ''theme'' = Some ''dark''
   \<and> references ''dark'' (themeToggle_change False (themeToggle_change True s))
   \<and> localStorage (themeToggle_change False s) ''theme'' = Some ''dark''
   \<and> references ''dark'' (themeToggle_change False s)
   \<and> (themeToggle s = Some t \<and> change_listener t \<longrightarrow>
        localStorage (navbar_step cb s (Change b)) ''theme''
          = Some (if b then ''light'' else ''dark'')
        \<and> references (if b then ''light'' else ''dark'') (navbar_step cb s (Change b)))"
  using themeToggle_change_references [of True] themeToggle_change_references [of False]
    themeToggle_change_references [of b "s\<lparr>themeToggle := Some (t\<lparr>checked := b\<rparr>)\<rparr>"]
  by (simp add: themeToggle_change_storage Let_def)

theorem change_listener_persists_and_applies_witness:
  "localStorage (themeToggle_change True (script_js example_page)) ''theme'' = Some ''light''
   \<and> root_style (themeToggle_change True (script_js example_page)) ''--mantle''
       = Some ''var(--light-mantle)''
   \<and> root_style (themeToggle_change False (themeToggle_change True (script_js example_page)))
        ''--mantle'' = Some ''var(--dark-mantle)''
   \<and> root_style (navbar_step (getNavbar_then example_doc)
        ((script_js example_page)\<lparr>themeToggle := Some \<lparr>checked = False, change_listener = True\<rparr>\<rparr>)
        (Change True)) ''--text'' = Some ''var(--light-text)''"
  using change_listener_persists_and_applies [of "script_js example_page"]
    change_listener_persists_and_applies
      [of "(script_js example_page)\<lparr>themeToggle := Some \<lparr>checked = False, change_listener = True\<rparr>\<rparr>"
        "\<lparr>checked = False, change_listener = True\<rparr>" "getNavbar_then example_doc" True]
  by (simp add: references_def layers_def)

section \<open>The navbar loader and the wiring of the toggle\<close>

lemma callback_fields [simp]:
  "localStorage (callback v m s) = localStorage s"
  "root_style (callback v m s) = root_style s"
  "fetch_navbar (callback v m s) = fetch_navbar s"
  "response_text (callback v m s) = response_text s"
  "getNavbar (callback v m s) = getNavbar s"
  by (cases v; simp add: getNavbar_then_def getNavbar_then_plain_def getElementById_def
      throw_def Let_def split: option.splits lookup.splits)+

lemma callback_navbar: "navbar s = Some old \<Longrightarrow> navbar (callback v m s) = Some m"
  by (cases v) (auto simp add: getNavbar_then_def getNavbar_then_plain_def getElementById_def
      throw_def Let_def split: lookup.splits)

lemma load_fields [simp]:
  "navbar (load v s) = navbar s"
  "themeToggle (load v s) = themeToggle s"
  "lookups (load v s) = lookups s"
  "fetch_navbar (load v s) = Pending"
  "response_text (load v s) = None"
  "getNavbar (load v s) = Pending"
  by (cases v; simp add: script_js_def navbar_js_def getNavbar_new_def theme_init_def
      updateTheme_def setProperty_def setItem_def Let_def)+

lemma loader_inv_start: "themeToggle s = None \<Longrightarrow> loader_inv s (load v s)"
  by (simp add: loader_inv_def)

lemma loader_inv_step:
  assumes inv: "loader_inv s0 s"
  shows "loader_inv s0 (navbar_step (callback v) s e)"
proof (cases e)
  case FetchFulfilled
  with inv show ?thesis by (auto simp add: loader_inv_def split: option.splits promise.splits)
next
  case FetchRejected
  with inv show ?thesis
    by (auto simp add: loader_inv_def throw_def split: option.splits promise.splits)
next
  case (TextFulfilled m)
  show ?thesis
  proof (cases "response_text s = Some Pending")
    case True
    with inv have nb: "navbar s = navbar s0" by (simp add: loader_inv_def)
    from inv True have f: "fetch_navbar s = Fulfilled ()" by (auto simp add: loader_inv_def)
    have "navbar s0 \<noteq> None \<longrightarrow>
      navbar (callback v m (s\<lparr>response_text := Some (Fulfilled m), getNavbar := Fulfilled m\<rparr>)) = Some m"
      using callback_navbar [of "s\<lparr>response_text := Some (Fulfilled m), getNavbar := Fulfilled m\<rparr>" _ v m] nb
      by auto
    with True f TextFulfilled show ?thesis
      by (auto simp add: loader_inv_def)
  next
    case False
    with inv TextFulfilled show ?thesis by simp
  qed
next
  case TextRejected
  with inv show ?thesis
    by (auto simp add: loader_inv_def throw_def split: option.splits promise.splits)
next
  case (Change b)
  with inv show ?thesis
    by (auto simp add: loader_inv_def Let_def split: option.splits promise.splits)
qed

lemma loader_inv_foldl:
  "loader_inv s0 s \<Longrightarrow> loader_inv s0 (foldl (navbar_step (callback v)) s evs)"
  by (induction evs arbitrary: s) (simp_all add: loader_inv_step)

lemma loader_inv_run: "themeToggle s = None \<Longrightarrow> loader_inv s (run v s evs)"
  unfolding run_def by (rule loader_inv_foldl) (rule loader_inv_start)

lemma run_append: "run v s (evs @ evs') = foldl (navbar_step (callback v)) (run v s evs) evs'"
  by (simp add: run_def)

lemma fetch_fulfilled_needs_event:
  "fetch_navbar (foldl (navbar_step (callback v)) s evs) = Fulfilled () \<Longrightarrow>
    fetch_navbar s = Fulfilled () \<or> FetchFulfilled \<in> set evs"
proof (induction evs arbitrary: s)
  case Nil
  then show ?case by simp
next
  case (Cons e evs)
  from Cons.IH [OF Cons.prems [simplified]]
  show ?case
    by (cases e) (auto simp add: throw_def Let_def split: if_splits option.splits)
qed

lemma text_fulfilled_needs_event:
  "response_text (foldl (navbar_step (callback v)) s evs) = Some (Fulfilled m) \<Longrightarrow>
    response_text s = Some (Fulfilled m) \<or> TextFulfilled m \<in> set evs"
proof (induction evs arbitrary: s)
  case Nil
  then show ?case by simp
next
  case (Cons e evs)
  from Cons.IH [OF Cons.prems [simplified]]
  show ?case
    by (cases e) (auto simp add: throw_def Let_def split: if_splits option.splits)
qed

lemma pending_unless_both_events:
  assumes "themeToggle s = None"
    and "FetchFulfilled \<notin> set evs \<or> (\<forall>m. TextFulfilled m \<notin> set evs)"
  shows "getNavbar (run v s evs) = Pending"
proof -
  have inv: "loader_inv s (run v s evs)" using assms(1) by (rule loader_inv_run)
  have "\<And>m. response_text (run v s evs) \<noteq> Some (Fulfilled m)"
  proof
    fix m assume m: "response_text (run v s evs) = Some (Fulfilled m)"
    then have "TextFulfilled m \<in> set evs"
      using text_fulfilled_needs_event [of v "load v s" evs m] by (simp add: run_def)
    moreover from m inv have "fetch_navbar (run v s evs) = Fulfilled ()"
      by (auto simp add: loader_inv_def)
    then have "FetchFulfilled \<in> set evs"
      using fetch_fulfilled_needs_event [of v "load v s" evs] by (simp add: run_def)
    ultimately show False using assms(2) by auto
  qed
  with inv show ?thesis
    by (auto simp add: loader_inv_def split: option.splits promise.splits)
qed

lemma pending_not_wired:
  assumes "themeToggle s = None" and "getNavbar (run v s evs) = Pending"
  shows "lookups (run v s evs) = lookups s \<and> themeToggle (run v s evs) = None
    \<and> navbar (run v s evs) = navbar s"
  using loader_inv_run [OF assms(1), of v evs] assms(2)
  by (auto simp add: loader_inv_def split: option.splits promise.splits)

lemmas eval_page = example_page_def fresh_page_def script_js_def navbar_js_def
  getNavbar_new_def theme_init_def getItem_def setItem_def updateTheme_def setProperty_def
  Let_def throw_def getNavbar_then_def getNavbar_then_plain_def getElementById_def
  example_doc_def run_def template_def

text \<open>
  C4: in every execution of script.js from a fresh page in which the fetch of the navbar
  fragment never fulfils (or the text of the response never arrives), the promise getNavbar
  stays pending; and as long as it is pending, the element with id theme-switch has not been
  looked up and no change listener has been attached.
\<close>

theorem wiring_waits_for_fragment:
  "(FetchFulfilled \<notin> set evs \<or> (\<forall>m. TextFulfilled m \<notin> set evs) \<longrightarrow>
      getNavbar (run (Script_js doc) (fresh_page store style placeholder) evs) = Pending)
   \<and> (getNavbar (run (Script_js doc) (fresh_page store style placeholder) evs) = Pending \<longrightarrow>
      ''theme-switch'' \<notin> set (lookups (run (Script_js doc) (fresh_page store style placeholder) evs))
      \<and> themeToggle (run (Script_js doc) (fresh_page store style placeholder) evs) = None)"
proof -
  have none: "themeToggle (fresh_page store style placeholder) = None"
    by (simp add: fresh_page_def)
  have "lookups (fresh_page store style placeholder) = []" by (simp add: fresh_page_def)
  then show ?thesis
    using pending_unless_both_events [OF none, of evs "Script_js doc"]
      pending_not_wired [OF none, of "Script_js doc" evs]
    by auto
qed

theorem wiring_waits_for_fragment_witness:
  "getNavbar (run (Script_js example_doc) example_page
      [FetchRejected, Change True, TextFulfilled ''<nav></nav>'']) = Pending
   \<and> themeToggle (run (Script_js example_doc) example_page
      [FetchRejected, Change True, TextFulfilled ''<nav></nav>'']) = None
   \<and> themeToggle (run (Script_js example_doc) example_page
      [FetchFulfilled, TextFulfilled ''<nav></nav>''])
       = Some \<lparr>checked = False, change_listener = True\<rparr>"
  using wiring_waits_for_fragment [of "[FetchRejected, Change True, TextFulfilled ''<nav></nav>'']"
      example_doc Map.empty "[''--accent'' \<mapsto> ''red'']" "Some []"]
  by (simp add: example_page_def run_def script_js_def getNavbar_new_def fresh_page_def
      theme_init_def getItem_def setItem_def updateTheme_def setProperty_def Let_def throw_def
      getNavbar_then_def getElementById_def example_doc_def)

lemma failed_step:
  assumes "loader_inv s0 s" and "failed s"
  shows "failed (navbar_step (callback v) s e)"
  using assms
  by (cases e) (auto simp add: failed_def loader_inv_def throw_def Let_def split: option.splits)

lemma failed_foldl:
  "loader_inv s0 s \<Longrightarrow> failed s \<Longrightarrow> failed (foldl (navbar_step (callback v)) s evs)"
  by (induction evs arbitrary: s) (simp_all add: failed_step loader_inv_step)

lemma failed_hangs:
  assumes "loader_inv s0 s" and "failed s"
  shows "getNavbar s = Pending \<and> navbar s = navbar s0 \<and> lookups s = lookups s0"
  using assms by (auto simp add: failed_def loader_inv_def split: option.splits promise.splits)

text \<open>
  C5: for each of the two navbar loaders, on a page that has the placeholder: when the text of
  the fetched fragment arrives, the wrapping promise is fulfilled with it and the text becomes
  the inner markup of the placeholder, and it stays so; when the fetch or the read of the text
  has failed, then whatever happens afterwards the wrapping promise stays pending, the
  placeholder keeps its old markup and the chained callback never runs (no element is looked
  up). The promise never settles on failure in both variants, since neither calls reject.
\<close>

theorem navbar_loader_injects_or_hangs:
  "(response_text (run v (fresh_page store style (Some old)) evs) = Some Pending \<longrightarrow>
      getNavbar (run v (fresh_page store style (Some old)) (evs @ [TextFulfilled m])) = Fulfilled m
      \<and> navbar (run v (fresh_page store style (Some old)) (evs @ [TextFulfilled m])) = Some m)
   \<and> (getNavbar (run v (fresh_page store style (Some old)) evs) = Fulfilled m \<longrightarrow>
      navbar (run v (fresh_page store style (Some old)) evs) = Some m)
   \<and> (fetch_navbar (run v (fresh_page store style (Some old)) evs) = Rejected
       \<or> response_text (run v (fresh_page store style (Some old)) evs) = Some Rejected \<longrightarrow>
      getNavbar (run v (fresh_page store style (Some old)) (evs @ evs')) = Pending
      \<and> navbar (run v (fresh_page store style (Some old)) (evs @ evs')) = Some old
      \<and> lookups (run v (fresh_page store style (Some old)) (evs @ evs')) = [])"
proof -
  let ?p = "fresh_page store style (Some old)"
  have none: "themeToggle ?p = None" and nb: "navbar ?p = Some old" and lk: "lookups ?p = []"
    by (simp_all add: fresh_page_def)
  have inv: "\<And>es. loader_inv ?p (run v ?p es)" using none by (rule loader_inv_run)
  have a: "getNavbar (run v ?p (evs @ [TextFulfilled m])) = Fulfilled m
      \<and> navbar (run v ?p (evs @ [TextFulfilled m])) = Some m"
    if "response_text (run v ?p evs) = Some Pending"
  proof -
    from inv [of evs] that nb have "navbar (run v ?p evs) = Some old"
      by (simp add: loader_inv_def)
    then have "navbar (callback v m
        ((run v ?p evs)\<lparr>response_text := Some (Fulfilled m), getNavbar := Fulfilled m\<rparr>)) = Some m"
      by (intro callback_navbar [of _ old]) simp
    with that show ?thesis by (simp add: run_append)
  qed
  have b: "navbar (run v ?p evs) = Some m" if "getNavbar (run v ?p evs) = Fulfilled m"
    using inv [of evs] that nb
    by (auto simp add: loader_inv_def split: option.splits promise.splits)
  have c: "getNavbar (run v ?p (evs @ evs')) = Pending
      \<and> navbar (run v ?p (evs @ evs')) = Some old
      \<and> lookups (run v ?p (evs @ evs')) = []"
    if "fetch_navbar (run v ?p evs) = Rejected \<or> response_text (run v ?p evs) = Some Rejected"
  proof -
    from that have "failed (run v ?p evs)" by (simp add: failed_def)
    then have "failed (run v ?p (evs @ evs'))"
      using inv [of evs] by (simp add: run_append failed_foldl)
    from failed_hangs [OF inv this] nb lk show ?thesis by simp
  qed
  from a b c show ?thesis by blast
qed

theorem navbar_loader_injects_or_hangs_witness:
  "navbar (run Navbar_only (fresh_page Map.empty Map.empty (Some []))
      [FetchFulfilled, TextFulfilled ''<nav></nav>'']) = Some ''<nav></nav>''
   \<and> navbar (run (Script_js example_doc) (fresh_page Map.empty Map.empty (Some []))
      [FetchFulfilled, TextFulfilled ''<nav></nav>'']) = Some ''<nav></nav>''
   \<and> getNavbar (run Navbar_only (fresh_page Map.empty Map.empty (Some []))
      [FetchRejected, TextFulfilled ''<nav></nav>'']) = Pending
   \<and> navbar (run Navbar_only (fresh_page Map.empty Map.empty (Some []))
      [FetchRejected, TextFulfilled ''<nav></nav>'']) = Some []
   \<and> getNavbar (run (Script_js example_doc) (fresh_page Map.empty Map.empty (Some []))
      [FetchFulfilled, TextRejected, TextFulfilled ''<nav></nav>'']) = Pending
   \<and> navbar (run (Script_js example_doc) (fresh_page Map.empty Map.empty (Some []))
      [FetchFulfilled, TextRejected, TextFulfilled ''<nav></nav>'']) = Some []"
  using navbar_loader_injects_or_hangs [of Navbar_only Map.empty Map.empty "[]" "[FetchFulfilled]"
        "''<nav></nav>''" "[]"]
    navbar_loader_injects_or_hangs [of "Script_js example_doc" Map.empty Map.empty "[]"
        "[FetchFulfilled]" "''<nav></nav>''" "[]"]
    navbar_loader_injects_or_hangs [of Navbar_only Map.empty Map.empty "[]" "[FetchRejected]"
        "[]" "[TextFulfilled ''<nav></nav>'']"]
    navbar_loader_injects_or_hangs [of "Script_js example_doc" Map.empty Map.empty "[]"
        "[FetchFulfilled, TextRejected]" "[]" "[TextFulfilled ''<nav></nav>'']"]
  by (simp add: eval_page)

section \<open>Invariants of the stored theme\<close>

lemma theme_applied_change: "theme_applied (themeToggle_change b s)"
  using themeToggle_change_references [of b s]
  by (simp add: theme_applied_def themeToggle_change_storage)

lemma theme_applied_init: "theme_applied (script_js s)"
  using theme_init_references [of s]
  by (simp add: theme_applied_def script_js_def theme_init_storage)

lemma theme_applied_step:
  assumes "theme_applied s"
  shows "theme_applied (navbar_step (callback v) s e)"
proof (cases e)
  case (Change b)
  show ?thesis
  proof (cases "themeToggle s")
    case None
    with Change assms show ?thesis by simp
  next
    case (Some t)
    have "theme_applied (s\<lparr>themeToggle := Some (t\<lparr>checked := b\<rparr>)\<rparr>)"
      using assms by (simp add: theme_applied_def references_def split: option.splits)
    with Change Some show ?thesis by (simp add: Let_def theme_applied_change)
  qed
next
  case FetchFulfilled
  with assms show ?thesis by (simp add: theme_applied_def references_def split: option.splits)
next
  case FetchRejected
  with assms show ?thesis by (simp add: theme_applied_def references_def throw_def split: option.splits)
next
  case (TextFulfilled m)
  with assms show ?thesis by (simp add: theme_applied_def references_def split: option.splits)
next
  case TextRejected
  with assms show ?thesis by (simp add: theme_applied_def references_def throw_def split: option.splits)
qed

lemma theme_applied_foldl:
  "theme_applied s \<Longrightarrow> theme_applied (foldl (navbar_step (callback v)) s evs)"
  by (induction evs arbitrary: s) (simp_all add: theme_applied_step)

text \<open>
  C9: after the load sequence of script.js, after every run of the change listener, and in
  every state reached from the load sequence by network events and changes of the toggle,
  the theme applied to the root agrees with storage: a value t is stored under the key theme
  and every layer property of the root references its --t- variant.
\<close>

theorem applied_theme_agrees_with_storage:
  "theme_applied (script_js s)
   \<and> theme_applied (themeToggle_change b s')
   \<and> theme_applied (run (Script_js doc) s evs)"
  using theme_applied_foldl [OF theme_applied_init, of "Script_js doc" s evs]
  by (simp add: theme_applied_init theme_applied_change run_def)

theorem applied_theme_agrees_with_storage_witness:
  "localStorage (run (Script_js example_doc) example_page
      [FetchFulfilled, TextFulfilled ''<nav></nav>'', Change True]) ''theme'' = Some ''light''
   \<and> root_style (run (Script_js example_doc) example_page
      [FetchFulfilled, TextFulfilled ''<nav></nav>'', Change True]) ''--base''
       = Some ''var(--light-base)''"
proof -
  let ?s = "run (Script_js example_doc) example_page
      [FetchFulfilled, TextFulfilled ''<nav></nav>'', Change True]"
  have st: "localStorage ?s ''theme'' = Some ''light''"
    by (simp add: eval_page themeToggle_change_def)
  have "theme_applied ?s"
    using applied_theme_agrees_with_storage [of example_page True example_page example_doc
      "[FetchFulfilled, TextFulfilled ''<nav></nav>'', Change True]"] by simp
  with st have "references ''light'' ?s" by (simp add: theme_applied_def)
  with st show ?thesis by (simp add: references_def layers_def)
qed

lemma step_storage:
  "localStorage (navbar_step (callback v) s e) ''theme'' = localStorage s ''theme''
   \<or> localStorage (navbar_step (callback v) s e) ''theme'' = Some ''dark''
   \<or> localStorage (navbar_step (callback v) s e) ''theme'' = Some ''light''"
  by (cases e) (auto simp add: throw_def Let_def themeToggle_change_storage split: option.splits)

lemma load_storage:
  "localStorage (load v s) ''theme'' = localStorage s ''theme''
   \<or> localStorage s ''theme'' = None \<and> localStorage (load v s) ''theme'' = Some ''dark''"
  by (cases v; cases "localStorage s ''theme''")
    (simp_all add: script_js_def navbar_js_def theme_init_storage)

lemma foldl_storage_valid:
  "localStorage s ''theme'' \<in> {Some ''dark'', Some ''light''} \<Longrightarrow>
    localStorage (foldl (navbar_step (callback v)) s evs) ''theme'' \<in> {Some ''dark'', Some ''light''}"
proof (induction evs arbitrary: s)
  case Nil
  then show ?case by simp
next
  case (Cons e evs)
  have "localStorage (navbar_step (callback v) s e) ''theme'' \<in> {Some ''dark'', Some ''light''}"
    using step_storage [of v s e] Cons.prems by auto
  from Cons.IH [OF this] show ?case by simp
qed

lemma foldl_storage_kept:
  "localStorage s ''theme'' \<noteq> None \<Longrightarrow>
    localStorage (foldl (navbar_step (callback v)) s evs) ''theme'' \<noteq> None"
proof (induction evs arbitrary: s)
  case Nil
  then show ?case by simp
next
  case (Cons e evs)
  have "localStorage (navbar_step (callback v) s e) ''theme'' \<noteq> None"
    using step_storage [of v s e] Cons.prems by auto
  from Cons.IH [OF this] show ?case by simp
qed

text \<open>
  C7: the load-time initialisation turns a stored theme that is absent, "dark" or "light" into
  "dark" or "light"; the change listener always stores "dark" or "light"; every event of the
  page keeps a stored theme that is absent, "dark" or "light" in that set, so that after the
  load sequence of script.js it is "dark" or "light" for good; and neither script.js nor the
  stand-alone loader, in its synchronous part or on any event, deletes the key.
\<close>

theorem stored_theme_stays_dark_or_light:
  "(localStorage s ''theme'' \<in> {None, Some ''dark'', Some ''light''} \<longrightarrow>
      localStorage (script_js s) ''theme'' \<in> {Some ''dark'', Some ''light''})
   \<and> localStorage (themeToggle_change b s) ''theme'' \<in> {Some ''dark'', Some ''light''}
   \<and> (localStorage s ''theme'' \<in> {None, Some ''dark'', Some ''light''} \<longrightarrow>
      localStorage (navbar_step (callback v) s e) ''theme'' \<in> {None, Some ''dark'', Some ''light''})
   \<and> (localStorage s ''theme'' \<in> {None, Some ''dark'', Some ''light''} \<longrightarrow>
      localStorage (run (Script_js doc) s evs) ''theme'' \<in> {Some ''dark'', Some ''light''})
   \<and> (localStorage s ''theme'' \<noteq> None \<longrightarrow>
      localStorage (load v s) ''theme'' \<noteq> None
      \<and> localStorage (navbar_step (callback v) s e) ''theme'' \<noteq> None
      \<and> localStorage (run v s evs) ''theme'' \<noteq> None)"
proof (intro conjI impI)
  assume a: "localStorage s ''theme'' \<in> {None, Some ''dark'', Some ''light''}"
  then show i: "localStorage (script_js s) ''theme'' \<in> {Some ''dark'', Some ''light''}"
    by (auto simp add: script_js_def theme_init_storage)
  show "localStorage (navbar_step (callback v) s e) ''theme'' \<in> {None, Some ''dark'', Some ''light''}"
    using step_storage [of v s e] a by auto
  show "localStorage (run (Script_js doc) s evs) ''theme'' \<in> {Some ''dark'', Some ''light''}"
    using foldl_storage_valid [of "script_js s" "Script_js doc" evs] i by (simp add: run_def)
next
  show "localStorage (themeToggle_change b s) ''theme'' \<in> {Some ''dark'', Some ''light''}"
    by (simp add: themeToggle_change_storage)
next
  assume a: "localStorage s ''theme'' \<noteq> None"
  then show l: "localStorage (load v s) ''theme'' \<noteq> None"
    using load_storage [of v s] by auto
  show "localStorage (navbar_step (callback v) s e) ''theme'' \<noteq> None"
    using step_storage [of v s e] a by auto
  show "localStorage (run v s evs) ''theme'' \<noteq> None"
    using foldl_storage_kept [OF l, of v evs] by (simp add: run_def)
qed

theorem stored_theme_stays_dark_or_light_witness:
  "localStorage example_page ''theme'' = None
   \<and> localStorage (script_js example_page) ''theme'' = Some ''dark''
   \<and> localStorage (run (Script_js example_doc) example_page
        [FetchFulfilled, TextFulfilled ''<nav></nav>'', Change True]) ''theme'' = Some ''light''
   \<and> localStorage solarized_page ''theme'' = Some ''solarized''
   \<and> localStorage (run Navbar_only solarized_page [FetchFulfilled]) ''theme'' = Some ''solarized''"
  using stored_theme_stays_dark_or_light [of example_page True Navbar_only FetchFulfilled
      example_doc "[FetchFulfilled, TextFulfilled ''<nav></nav>'', Change True]"]
    stored_theme_stays_dark_or_light [of solarized_page True Navbar_only FetchFulfilled
      example_doc "[FetchFulfilled]"]
  by (simp add: eval_page solarized_page_def themeToggle_change_def)

section \<open>The site lister\<close>

lemma forEach_finish_begin: "forEach_finish icon (forEach_begin site) = card site icon"
  by (simp add: forEach_finish_def forEach_begin_def card_def createElement_def)

lemma forEach_finish_stage: "forEach_finish icon (t\<lparr>stage := x\<rparr>) = forEach_finish icon t"
  by (simp add: forEach_finish_def)

lemma tasks_base_nth:
  assumes "map (\<lambda>t. t\<lparr>stage := AwaitIcon\<rparr>) ts = map forEach_begin sites" and "i < length ts"
  shows "(ts ! i)\<lparr>stage := AwaitIcon\<rparr> = forEach_begin (sites ! i)"
proof -
  have "length ts = length sites" using assms(1) by (metis length_map)
  with assms show ?thesis by (metis nth_map)
qed

lemma finish_is_card:
  assumes "map (\<lambda>t. t\<lparr>stage := AwaitIcon\<rparr>) ts = map forEach_begin sites" and "i < length ts"
  shows "forEach_finish icon (ts ! i) = card (sites ! i) icon"
  using tasks_base_nth [OF assms] forEach_finish_stage [where icon = icon and t = "ts ! i" and x = AwaitIcon]
  by (simp add: forEach_finish_begin)

lemma tasks_base_update:
  "i < length ts \<Longrightarrow>
    map (\<lambda>t. t\<lparr>stage := AwaitIcon\<rparr>) (ts[i := (ts ! i)\<lparr>stage := x\<rparr>])
      = map (\<lambda>t. t\<lparr>stage := AwaitIcon\<rparr>) ts"
  by (simp add: map_update list_update_same_conv)

lemma appended_update:
  "i < length ts \<Longrightarrow>
    appended (ts[i := (ts ! i)\<lparr>stage := x\<rparr>])
      = (if x = Appended then insert i (appended ts) else appended ts - {i})"
  by (auto simp add: appended_def nth_list_update)

lemma sites_inv_mono:
  assumes "sites_inv sites evs s"
  shows "sites_inv sites (evs @ [e]) s"
  using assms unfolding sites_inv_def by fastforce

lemma sites_inv_step:
  assumes inv: "sites_inv sites evs s"
  shows "sites_inv sites (evs @ [e]) (sites_step s e)"
proof -
  from inv have api: "api s = Listing"
    and base: "map (\<lambda>t. t\<lparr>stage := AwaitIcon\<rparr>) (tasks s) = map forEach_begin sites"
    and blob: "\<forall>i < length (tasks s). stage (tasks s ! i) = AwaitBlob \<longrightarrow> IconResponse i \<in> set evs"
    by (simp_all add: sites_inv_def)
  from inv obtain ds where ds: "site_list s = Some (map (\<lambda>(i, icon). card (sites ! i) icon) ds)"
    "distinct (map fst ds)" "set (map fst ds) = appended (tasks s)"
    "\<forall>(i, icon) \<in> set ds. IconResponse i \<in> set evs \<and> IconBlob i icon \<in> set evs"
    unfolding sites_inv_def by blast
  note mono = sites_inv_mono [OF inv, of e]
  show ?thesis
  proof (cases e)
    case SitesResponse
    with api mono show ?thesis by simp
  next
    case (SitesJson x)
    with api mono show ?thesis by simp
  next
    case SitesRejected
    with api mono show ?thesis by simp
  next
    case (IconResponse i)
    show ?thesis
    proof (cases "i < length (tasks s) \<and> stage (tasks s ! i) = AwaitIcon")
      case False
      with IconResponse mono show ?thesis by auto
    next
      case True
      then have "i \<notin> appended (tasks s)" by (simp add: appended_def)
      then have "appended ((tasks s)[i := (tasks s ! i)\<lparr>stage := AwaitBlob\<rparr>]) = appended (tasks s)"
        using True by (simp add: appended_update)
      with True IconResponse api base blob ds show ?thesis
        unfolding sites_inv_def
        by (auto simp add: tasks_base_update nth_list_update intro!: exI [of _ ds])
    qed
  next
    case (IconRejected i)
    show ?thesis
    proof (cases "i < length (tasks s)
        \<and> (stage (tasks s ! i) = AwaitIcon \<or> stage (tasks s ! i) = AwaitBlob)")
      case False
      with IconRejected mono show ?thesis by auto
    next
      case True
      then have "i \<notin> appended (tasks s)" by (auto simp add: appended_def)
      then have "appended ((tasks s)[i := (tasks s ! i)\<lparr>stage := Failed\<rparr>]) = appended (tasks s)"
        using True by (simp add: appended_update)
      with True IconRejected api base blob ds show ?thesis
        unfolding sites_inv_def
        by (auto simp add: tasks_base_update nth_list_update intro!: exI [of _ ds])
    qed
  next
    case (IconBlob i icon)
    show ?thesis
    proof (cases "i < length (tasks s) \<and> stage (tasks s ! i) = AwaitBlob")
      case False
      with IconBlob mono show ?thesis by auto
    next
      case True
      then have notin: "i \<notin> appended (tasks s)" by (simp add: appended_def)
      have app: "appended ((tasks s)[i := (tasks s ! i)\<lparr>stage := Appended\<rparr>])
          = insert i (appended (tasks s))"
        using True by (simp add: appended_update)
      have crd: "forEach_finish icon (tasks s ! i) = card (sites ! i) icon"
        using finish_is_card [OF base] True by simp
      have resp: "IconResponse i \<in> set evs" using blob True by simp
      let ?ds = "ds @ [(i, icon)]"
      have "site_list (sites_step s e) = Some (map (\<lambda>(i, icon). card (sites ! i) icon) ?ds)"
        using True IconBlob ds(1) crd by simp
      moreover have "distinct (map fst ?ds)" using ds(2,3) notin by simp
      moreover have "set (map fst ?ds) = appended (tasks (sites_step s e))"
        using True IconBlob ds(3) app by simp
      moreover have "\<forall>(i, icon) \<in> set ?ds.
          IconResponse i \<in> set (evs @ [e]) \<and> IconBlob i icon \<in> set (evs @ [e])"
        using ds(4) IconBlob resp by auto
      moreover have "api (sites_step s e) = Listing" using api IconBlob by simp
      moreover have "map (\<lambda>t. t\<lparr>stage := AwaitIcon\<rparr>) (tasks (sites_step s e)) = map forEach_begin sites"
        using True IconBlob base by (simp add: tasks_base_update)
      moreover have "\<forall>j < length (tasks (sites_step s e)).
          stage (tasks (sites_step s e) ! j) = AwaitBlob \<longrightarrow> IconResponse j \<in> set (evs @ [e])"
        using True IconBlob blob by (auto simp add: nth_list_update)
      ultimately show ?thesis unfolding sites_inv_def by blast
    qed
  qed
qed

lemma sites_inv_resume:
  "site_list s = Some old \<Longrightarrow> sites_inv sites [] (getSites_resume sites s)"
  by (simp add: sites_inv_def getSites_resume_def appended_def forEach_begin_def comp_def)

lemma list_sites_start:
  "list_sites container sites evs =
    foldl sites_step (getSites_resume sites ((getSites container)\<lparr>api := AwaitJson\<rparr>)) evs"
  by (simp add: list_sites_def getSites_def)

lemma list_sites_snoc:
  "list_sites container sites (evs @ [e]) = sites_step (list_sites container sites evs) e"
  by (simp add: list_sites_start)

lemma sites_inv_run: "sites_inv sites evs (list_sites (Some old) sites evs)"
proof (induction evs rule: rev_induct)
  case Nil
  show ?case
    unfolding list_sites_start by (simp add: sites_inv_resume getSites_def)
next
  case (snoc e evs)
  then show ?case by (simp add: list_sites_snoc sites_inv_step)
qed

lemma step_listing:
  "api s = Listing \<Longrightarrow>
    api (sites_step s e) = Listing \<and> length (tasks (sites_step s e)) = length (tasks s)"
  by (cases e) simp_all

lemma step_stage:
  assumes "api s = Listing" and "i < length (tasks s)"
  shows "stage (tasks (sites_step s e) ! i) =
    (let st = stage (tasks s ! i) in
     if e = IconResponse i \<and> st = AwaitIcon then AwaitBlob
     else if is_blob i e \<and> st = AwaitBlob then Appended
     else if e = IconRejected i \<and> (st = AwaitIcon \<or> st = AwaitBlob) then Failed
     else st)"
  using assms by (cases e) (auto simp add: is_blob_def nth_list_update Let_def)

lemma appended_stays:
  "api s = Listing \<Longrightarrow> i < length (tasks s) \<Longrightarrow> stage (tasks s ! i) = Appended \<Longrightarrow>
    stage (tasks (foldl sites_step s evs) ! i) = Appended"
proof (induction evs arbitrary: s)
  case Nil
  then show ?case by simp
next
  case (Cons e evs)
  have "stage (tasks (sites_step s e) ! i) = Appended"
    using step_stage [OF Cons.prems(1,2), of e] Cons.prems(3) by (simp add: Let_def)
  with Cons.IH [of "sites_step s e"] step_listing [OF Cons.prems(1), of e] Cons.prems(2)
  show ?case by simp
qed

lemma blob_appends:
  "api s = Listing \<Longrightarrow> i < length (tasks s) \<Longrightarrow> stage (tasks s ! i) = AwaitBlob \<Longrightarrow>
    IconRejected i \<notin> set evs \<Longrightarrow> list_ex (is_blob i) evs \<Longrightarrow>
    stage (tasks (foldl sites_step s evs) ! i) = Appended"
proof (induction evs arbitrary: s)
  case Nil
  then show ?case by simp
next
  case (Cons e evs)
  note lst = step_listing [OF Cons.prems(1), of e]
  from Cons.prems(4) have ne: "e \<noteq> IconRejected i" by auto
  show ?case
  proof (cases "is_blob i e")
    case True
    then have "stage (tasks (sites_step s e) ! i) = Appended"
      using step_stage [OF Cons.prems(1,2), of e] Cons.prems(3) by (simp add: Let_def)
    with appended_stays [of "sites_step s e" i evs] lst Cons.prems(2) show ?thesis by simp
  next
    case False
    then have "stage (tasks (sites_step s e) ! i) = AwaitBlob"
      using step_stage [OF Cons.prems(1,2), of e] Cons.prems(3) ne by (simp add: Let_def)
    moreover from False Cons.prems(5) have "list_ex (is_blob i) evs" by simp
    ultimately show ?thesis
      using Cons.IH [of "sites_step s e"] lst Cons.prems(2,4) by simp
  qed
qed

lemma fulfilled_icon_appends:
  "api s = Listing \<Longrightarrow> i < length (tasks s) \<Longrightarrow> stage (tasks s ! i) = AwaitIcon \<Longrightarrow>
    icon_fulfils i evs \<Longrightarrow> stage (tasks (foldl sites_step s evs) ! i) = Appended"
proof (induction evs arbitrary: s)
  case Nil
  then show ?case by (simp add: icon_fulfils_def)
next
  case (Cons e evs)
  note lst = step_listing [OF Cons.prems(1), of e]
  from Cons.prems(4) have ne: "e \<noteq> IconRejected i" and rej: "IconRejected i \<notin> set evs"
    by (auto simp add: icon_fulfils_def)
  show ?case
  proof (cases "e = IconResponse i")
    case True
    then have "stage (tasks (sites_step s e) ! i) = AwaitBlob"
      using step_stage [OF Cons.prems(1,2), of e] Cons.prems(3) by (simp add: Let_def)
    moreover from True Cons.prems(4) have "list_ex (is_blob i) evs"
      by (simp add: icon_fulfils_def is_blob_def)
    ultimately show ?thesis
      using blob_appends [of "sites_step s e" i evs] lst Cons.prems(2) rej by simp
  next
    case False
    then have "stage (tasks (sites_step s e) ! i) = AwaitIcon"
      using step_stage [OF Cons.prems(1,2), of e] Cons.prems(3) ne by (simp add: Let_def)
    moreover from False Cons.prems(4) have "icon_fulfils i evs"
      by (simp add: icon_fulfils_def)
    ultimately show ?thesis
      using Cons.IH [of "sites_step s e"] lst Cons.prems(2) by simp
  qed
qed

lemma all_fulfilled_all_appended:
  assumes "\<forall>i < length sites. icon_fulfils i evs"
  shows "appended (tasks (list_sites (Some old) sites evs)) = {..<length sites}"
proof -
  let ?s = "getSites_resume sites ((getSites (Some old))\<lparr>api := AwaitJson\<rparr>)"
  have s: "api ?s = Listing" "length (tasks ?s) = length sites"
    "\<And>i. i < length sites \<Longrightarrow> stage (tasks ?s ! i) = AwaitIcon"
    by (simp_all add: getSites_resume_def getSites_def forEach_begin_def)
  have len: "length (tasks (list_sites (Some old) sites evs)) = length sites"
    using sites_inv_run [of sites evs old] unfolding sites_inv_def by (metis length_map)
  have "stage (tasks (list_sites (Some old) sites evs) ! i) = Appended" if "i < length sites" for i
    unfolding list_sites_start
    using fulfilled_icon_appends [of ?s i evs] s that assms by simp
  with len show ?thesis by (auto simp add: appended_def)
qed

lemmas eval_sites = list_sites_def getSites_def getSites_resume_def forEach_begin_def
  forEach_finish_def card_def createElement_def Let_def

text \<open>
  C1, as the code has it: for every list of N records returned by the API, if the request for
  the icon of every record fulfils (response and blob), the container is cleared and ends up
  with exactly N cards, one link of class site per record, each made of the icon, the title
  and the description of its record, in some order; and for the empty list the container ends
  up empty after being cleared, whatever it held before.
\<close>

theorem fulfilled_icons_give_one_card_per_site:
  "((\<forall>i < length sites. icon_fulfils i evs) \<longrightarrow>
      (\<exists>ds. site_list (list_sites (Some old) sites evs)
               = Some (map (\<lambda>(i, icon). card (sites ! i) icon) ds)
            \<and> mset (map fst ds) = mset [0..<length sites]
            \<and> length ds = length sites))
   \<and> site_list (list_sites (Some old) [] evs) = Some []"
proof (intro conjI impI)
  assume all: "\<forall>i < length sites. icon_fulfils i evs"
  from sites_inv_run [of sites evs old] obtain ds where
    ds: "site_list (list_sites (Some old) sites evs)
          = Some (map (\<lambda>(i, icon). card (sites ! i) icon) ds)"
      "distinct (map fst ds)"
      "set (map fst ds) = appended (tasks (list_sites (Some old) sites evs))"
    unfolding sites_inv_def by blast
  from ds(3) all_fulfilled_all_appended [OF all, of old]
  have "set (map fst ds) = set [0..<length sites]" by auto
  with ds(2) have m: "mset (map fst ds) = mset [0..<length sites]"
    using set_eq_iff_mset_eq_distinct [of "map fst ds" "[0..<length sites]"] distinct_upt
    by blast
  then have "length (map fst ds) = length [0..<length sites]" by (metis size_mset)
  with ds(1) m show "\<exists>ds. site_list (list_sites (Some old) sites evs)
               = Some (map (\<lambda>(i, icon). card (sites ! i) icon) ds)
            \<and> mset (map fst ds) = mset [0..<length sites]
            \<and> length ds = length sites" by auto
next
  from sites_inv_run [of "[]" evs old] obtain ds where
    ds: "site_list (list_sites (Some old) [] evs)
          = Some (map (\<lambda>(i, icon). card ([] ! i) icon) ds)"
      "set (map fst ds) = appended (tasks (list_sites (Some old) [] evs))"
      "map (\<lambda>t. t\<lparr>stage := AwaitIcon\<rparr>) (tasks (list_sites (Some old) [] evs)) = map forEach_begin []"
    unfolding sites_inv_def by blast
  from ds(3) have "tasks (list_sites (Some old) [] evs) = []" by simp
  with ds(2) have "ds = []" by (simp add: appended_def)
  with ds(1) show "site_list (list_sites (Some old) [] evs) = Some []" by simp
qed

theorem fulfilled_icons_give_one_card_per_site_witness:
  "icon_fulfils 0 [IconResponse 1, IconResponse 0, IconBlob 1 ''B'', IconBlob 0 ''A'']
   \<and> icon_fulfils 1 [IconResponse 1, IconResponse 0, IconBlob 1 ''B'', IconBlob 0 ''A'']
   \<and> map_option length (site_list (list_sites (Some [Element ''p'' [] []]) [site_a, site_b]
        [IconResponse 1, IconResponse 0, IconBlob 1 ''B'', IconBlob 0 ''A''])) = Some 2
   \<and> site_list (list_sites (Some [Element ''p'' [] []]) []
        [IconResponse 1, IconResponse 0, IconBlob 1 ''B'', IconBlob 0 ''A'']) = Some []"
proof -
  let ?evs = "[IconResponse 1, IconResponse 0, IconBlob 1 ''B'', IconBlob 0 ''A'']"
  have f: "icon_fulfils 0 ?evs" "icon_fulfils 1 ?evs"
    by (simp_all add: icon_fulfils_def is_blob_def)
  then have h: "\<forall>i < length [site_a, site_b]. icon_fulfils i ?evs"
    by (simp add: less_Suc_eq)
  from fulfilled_icons_give_one_card_per_site [of "[site_a, site_b]" ?evs "[Element ''p'' [] []]"] h
  obtain ds where "site_list (list_sites (Some [Element ''p'' [] []]) [site_a, site_b] ?evs)
      = Some (map (\<lambda>(i, icon). card ([site_a, site_b] ! i) icon) ds)"
    and "length ds = length [site_a, site_b]" by blast
  then have "map_option length (site_list (list_sites (Some [Element ''p'' [] []])
      [site_a, site_b] ?evs)) = Some 2" by simp
  with f fulfilled_icons_give_one_card_per_site [of "[]" ?evs "[Element ''p'' [] []]"]
  show ?thesis by simp
qed

text \<open>
  The claim C1 without the condition on the icons fails: with one record whose icon request
  is rejected, every request has settled and the container holds no card.
\<close>

theorem rejected_icon_leaves_no_card:
  "map_option length (site_list (list_sites (Some []) [site_a] [IconRejected 0]))
     \<noteq> Some (length [site_a])
   \<and> map stage (tasks (list_sites (Some []) [site_a] [IconRejected 0])) = [Failed]"
  by (simp add: eval_sites)

lemma sites_inv_bound:
  assumes "sites_inv sites evs s"
  shows "\<exists>ds. site_list s = Some (map (\<lambda>(i, icon). card (sites ! i) icon) ds)
    \<and> (\<forall>(i, icon) \<in> set ds.
          i < length sites \<and> IconResponse i \<in> set evs \<and> IconBlob i icon \<in> set evs)"
proof -
  from assms obtain ds where
    ds: "site_list s = Some (map (\<lambda>(i, icon). card (sites ! i) icon) ds)"
      "set (map fst ds) = appended (tasks s)"
      "\<forall>(i, icon) \<in> set ds. IconResponse i \<in> set evs \<and> IconBlob i icon \<in> set evs"
    and len: "map (\<lambda>t. t\<lparr>stage := AwaitIcon\<rparr>) (tasks s) = map forEach_begin sites"
    unfolding sites_inv_def by blast
  from len have "length (tasks s) = length sites" by (metis length_map)
  with ds(2) have "\<forall>(i, icon) \<in> set ds. i < length sites"
    by (force simp add: appended_def)
  with ds(1,3) show ?thesis by blast
qed

text \<open>
  C8: the order of the cards is the order in which the blobs of the icons arrive, not the
  order of the records: for two records, the schedule that completes the second icon first
  puts the card of the second record first, while the schedule in list order keeps the list
  order, and the two results differ when the records differ in their names. In every run,
  each card in the container is the card of a record whose icon response and icon blob have
  arrived before.
\<close>

theorem cards_follow_icon_completion_order:
  "site_list (list_sites (Some old) [a, b]
      [IconResponse 0, IconResponse 1, IconBlob 1 ib, IconBlob 0 ia]) = Some [card b ib, card a ia]
   \<and> site_list (list_sites (Some old) [a, b]
      [IconResponse 0, IconResponse 1, IconBlob 0 ia, IconBlob 1 ib]) = Some [card a ia, card b ib]
   \<and> (name a \<noteq> name b \<longrightarrow> [card b ib, card a ia] \<noteq> [card a ia, card b ib])
   \<and> (\<exists>ds. site_list (list_sites (Some old) sites evs)
              = Some (map (\<lambda>(i, icon). card (sites ! i) icon) ds)
          \<and> (\<forall>(i, icon) \<in> set ds.
                i < length sites \<and> IconResponse i \<in> set evs \<and> IconBlob i icon \<in> set evs))"
proof (intro conjI)
  show "site_list (list_sites (Some old) [a, b]
      [IconResponse 0, IconResponse 1, IconBlob 1 ib, IconBlob 0 ia]) = Some [card b ib, card a ia]"
    by (simp add: eval_sites)
  show "site_list (list_sites (Some old) [a, b]
      [IconResponse 0, IconResponse 1, IconBlob 0 ia, IconBlob 1 ib]) = Some [card a ia, card b ib]"
    by (simp add: eval_sites)
  show "name a \<noteq> name b \<longrightarrow> [card b ib, card a ia] \<noteq> [card a ia, card b ib]"
    by (auto simp add: card_def)
  show "\<exists>ds. site_list (list_sites (Some old) sites evs)
              = Some (map (\<lambda>(i, icon). card (sites ! i) icon) ds)
          \<and> (\<forall>(i, icon) \<in> set ds.
                i < length sites \<and> IconResponse i \<in> set evs \<and> IconBlob i icon \<in> set evs)"
    by (rule sites_inv_bound) (rule sites_inv_run)
qed

theorem cards_follow_icon_completion_order_witness:
  "site_list (list_sites (Some []) [site_a, site_b]
      [IconResponse 0, IconResponse 1, IconBlob 1 ''B'', IconBlob 0 ''A''])
     = Some [card site_b ''B'', card site_a ''A'']
   \<and> [card site_b ''B'', card site_a ''A''] \<noteq> [card site_a ''A'', card site_b ''B'']
   \<and> name site_a \<noteq> name site_b"
  using cards_follow_icon_completion_order [of "[]" site_a site_b "''B''" "''A''" "[site_a, site_b]"
      "[IconResponse 0, IconResponse 1, IconBlob 1 ''B'', IconBlob 0 ''A'']"]
  by (simp add: site_a_def site_b_def)

end
